theory Spec2Isabelle
  imports Complex_Main "HOL-Library.Multiset"
begin

section \<open>Python values, exceptions and number formatting\<close>

text \<open>
  The embedding follows \<^verbatim>\<open>tools/system_monitor.py\<close>.  Python floats are modelled
  by exact rationals: every finite double is a rational, comparisons are exact, and a
  division of an integer below \<open>2^53\<close> by \<open>1024\<close> is exact in binary floating point.
  The rounding error of other float operations is not modelled.  Exceptions are values of
  the type \<open>exn\<close>; all of them are subclasses of Python's \<^verbatim>\<open>Exception\<close>.
\<close>

datatype exn =
    NoSuchProcess | AccessDenied | ZombieProcess
  | AttributeError | TypeError | KeyError | ZeroDivisionError
  | PermissionError | OSError

datatype pyval = PStr string | PFloat rat | PInt int | PNone

type_synonym pydict = "string \<Rightarrow> pyval option"

text \<open>\<^verbatim>\<open>d[k]\<close>: a missing key raises \<^verbatim>\<open>KeyError\<close>.\<close>

definition getitem :: "pydict \<Rightarrow> string \<Rightarrow> exn + pyval" where
  "getitem d k = (case d k of None \<Rightarrow> Inl KeyError | Some v \<Rightarrow> Inr v)"

definition digit_char :: "nat \<Rightarrow> char" where
  "digit_char d = ''0123456789'' ! d"

fun digits :: "nat \<Rightarrow> string" where
  "digits n = (if n < 10 then [digit_char n] else digits (n div 10) @ [digit_char (n mod 10)])"

declare digits.simps [simp del]

text \<open>Rounding to the nearest integer, ties to the even one, as Python's \<^verbatim>\<open>round\<close>
  and its \<^verbatim>\<open>.1f\<close> conversion do on the exact value of a float.\<close>

definition round_half_even :: "rat \<Rightarrow> int" where
  "round_half_even x =
     (let f = \<lfloor>x\<rfloor>; d = x - of_int f in
      if d < 1 / 2 then f else if 1 / 2 < d then f + 1 else if even f then f else f + 1)"

text \<open>\<^verbatim>\<open>round(x, 1)\<close>.\<close>

definition py_round1 :: "rat \<Rightarrow> rat" where
  "py_round1 x = of_int (round_half_even (x * 10)) / 10"

text \<open>\<^verbatim>\<open>f"{x:.1f}"\<close> and \<^verbatim>\<open>f"{x:.0f}"\<close>.\<close>

definition fmt1 :: "rat \<Rightarrow> string" where
  "fmt1 x =
     (let n = nat (round_half_even (\<bar>x\<bar> * 10)) in
      (if x < 0 then ''-'' else '''') @ digits (n div 10) @ ''.'' @ digits (n mod 10))"

definition fmt0 :: "rat \<Rightarrow> string" where
  "fmt0 x = (if x < 0 then ''-'' else '''') @ digits (nat (round_half_even \<bar>x\<bar>))"

text \<open>\<^verbatim>\<open>str.lower\<close> and \<^verbatim>\<open>str.endswith\<close>.  Only the letters A to Z are lowered;
  strings are byte sequences, so a character outside ASCII is several bytes above 127,
  none of which is changed.\<close>

definition lower_char :: "char \<Rightarrow> char" where
  "lower_char c =
     (case map_of (zip ''ABCDEFGHIJKLMNOPQRSTUVWXYZ'' ''abcdefghijklmnopqrstuvwxyz'') c of
        Some l \<Rightarrow> l
      | None \<Rightarrow> c)"

definition lower :: "string \<Rightarrow> string" where
  "lower s = map lower_char s"

definition endswith :: "string \<Rightarrow> string \<Rightarrow> bool" where
  "endswith s suffix =
     (length suffix \<le> length s \<and> drop (length s - length suffix) s = suffix)"

text \<open>\<^verbatim>\<open>xs[:limit]\<close>: a negative limit drops that many elements from the end.\<close>

definition slice_to :: "int \<Rightarrow> 'a list \<Rightarrow> 'a list" where
  "slice_to limit xs =
     (if 0 \<le> limit then take (nat limit) xs else take (length xs - nat (- limit)) xs)"

section \<open>The byte formatter\<close>

text \<open>
  \<^verbatim>\<open>
  def format_bytes(self, bytes_value):
      for unit in ['B', 'KB', 'MB', 'GB', 'TB']:
          if bytes_value < 1024:
              return f"{bytes_value:.1f} {unit}"
          bytes_value /= 1024
      return f"{bytes_value:.1f} PB"
  \<close>
\<close>

fun format_bytes_loop :: "string list \<Rightarrow> rat \<Rightarrow> string" where
  "format_bytes_loop [] bytes_value = fmt1 bytes_value @ '' PB''"
| "format_bytes_loop (unit # units) bytes_value =
     (if bytes_value < 1024 then fmt1 bytes_value @ '' '' @ unit
      else format_bytes_loop units (bytes_value / 1024))"

definition format_bytes :: "nat \<Rightarrow> string" where
  "format_bytes bytes_value =
     format_bytes_loop [''B'', ''KB'', ''MB'', ''GB'', ''TB''] (of_nat bytes_value)"

text \<open>
  The formatter as the specification words it: divide by 1024 while the value is at least
  1024 and the unit is not yet PB, advancing through the unit labels; then render with one
  decimal place.
\<close>

definition unit_labels :: "string list" where
  "unit_labels = [''B'', ''KB'', ''MB'', ''GB'', ''TB'', ''PB'']"




text \<open>The unit of a formatted string is what follows its first space; the rank of a unit
  is its position in the sequence B, KB, MB, GB, TB, PB.\<close>

definition unit_of :: "string \<Rightarrow> string" where
  "unit_of s = drop 1 (dropWhile (\<lambda>c. c \<noteq> CHR '' '') s)"

fun index_of :: "'a \<Rightarrow> 'a list \<Rightarrow> nat" where
  "index_of x [] = 0"
| "index_of x (y # ys) = (if x = y then 0 else Suc (index_of x ys))"

definition unit_rank :: "string \<Rightarrow> nat" where
  "unit_rank u = index_of u unit_labels"

text \<open>The number of divisions the loop of \<open>format_bytes\<close> performs.\<close>

fun loop_steps :: "string list \<Rightarrow> rat \<Rightarrow> nat" where
  "loop_steps [] v = 0"
| "loop_steps (unit # units) v = (if v < 1024 then 0 else Suc (loop_steps units (v / 1024)))"

section \<open>The host: what the operating system and psutil answer\<close>

text \<open>
  The monitor reads the host through \<^verbatim>\<open>os\<close>, \<^verbatim>\<open>platform\<close>, \<^verbatim>\<open>shutil\<close> and, when
  it could be imported, \<^verbatim>\<open>psutil\<close>.  Every such call is a field of the record \<open>host\<close>;
  a call that may raise answers \<open>Inl\<close> of the exception.
\<close>

record virtual_memory =
  vm_total :: nat
  vm_available :: nat
  vm_used :: nat
  vm_percent :: rat

record swap_memory =
  sw_total :: nat
  sw_used :: nat
  sw_percent :: rat

record partition =
  device :: string
  mountpoint :: string

record disk_usage =
  du_total :: nat
  du_used :: nat
  du_free :: nat

text \<open>
  A process as \<^verbatim>\<open>psutil.process_iter(['pid', 'name', 'cpu_percent', 'memory_info'])\<close>
  yields it: \<^verbatim>\<open>proc.info\<close> holds \<open>None\<close> for an attribute psutil could not read.
  \<open>oneshot_error\<close> is the exception entering \<^verbatim>\<open>proc.oneshot()\<close> raises, if any.
\<close>

record process =
  info_pid :: int
  info_name :: "string option"
  info_cpu_percent :: "rat option"
  info_rss :: "nat option"
  oneshot_error :: "exn option"

record host =
  HAS_PSUTIL :: bool
  system :: string
  os_cpu_count :: "nat option"
  psutil_cpu_percent :: "exn + rat"
  psutil_cpu_count :: "nat option"
  psutil_cpu_count_physical :: "nat option"
  wmi_processor :: "exn + nat \<times> nat"
  psutil_cpu_freq :: "exn + rat option"
  psutil_sensors_temperatures :: "exn + rat option"
  psutil_virtual_memory :: "exn + virtual_memory"
  psutil_swap_memory :: "exn + swap_memory"
  psutil_disk_partitions :: "exn + partition list"
  psutil_disk_usage :: "string \<Rightarrow> exn + disk_usage"
  abspath_cwd :: "exn + string"
  shutil_disk_usage :: "string \<Rightarrow> exn + disk_usage"
  first_pass :: "exn option list"
  first_pass_error :: "exn option"
  second_pass :: "process list"
  second_pass_error :: "exn option"

text \<open>
  \<open>first_pass\<close> lists, for each process of the first iteration, the exception that
  \<^verbatim>\<open>proc.cpu_percent(interval=0.0)\<close> raises (if any); \<open>second_pass\<close> lists the processes
  of the second iteration.  \<open>first_pass_error\<close> and \<open>second_pass_error\<close> are the exception
  with which the iterator itself ends, if it does.
\<close>

section \<open>CPU, memory and disk probes\<close>

text \<open>Lines 40 to 52: the frequency string.\<close>

definition cpu_frequency :: "host \<Rightarrow> string" where
  "cpu_frequency h =
     (if system h = ''Windows'' then
        (case wmi_processor h of
           Inl e \<Rightarrow> ''Unknown''
         | Inr (current_freq, max_freq) \<Rightarrow>
             fmt0 (of_nat current_freq) @ '' MHz (Max: '' @ digits max_freq @ '' MHz)'')
      else
        (case psutil_cpu_freq h of
           Inl e \<Rightarrow> ''Unknown''
         | Inr None \<Rightarrow> ''Unknown''
         | Inr (Some current) \<Rightarrow> fmt0 current @ '' MHz''))"

text \<open>Lines 62 to 69: the temperature entry, added on Windows when a sensor answers.  The
  degree sign is its two bytes in UTF-8.\<close>

definition cpu_temperature :: "host \<Rightarrow> string option" where
  "cpu_temperature h =
     (if system h = ''Windows'' then
        (case psutil_sensors_temperatures h of
           Inl e \<Rightarrow> None
         | Inr None \<Rightarrow> None
         | Inr (Some temp) \<Rightarrow> Some (fmt0 temp @ [CHR 0xC2, CHR 0xB0] @ ''C''))
      else None)"

definition opt_int :: "nat option \<Rightarrow> pyval" where
  "opt_int n = (case n of None \<Rightarrow> PNone | Some k \<Rightarrow> PInt (int k))"

text \<open>Lines 75 to 80: the fallback dictionary of \<open>get_cpu_info\<close>.\<close>

definition cpu_fallback :: "host \<Rightarrow> pydict" where
  "cpu_fallback h =
     map_of [(''usage'', PStr ''Unknown''),
             (''cores'', opt_int (os_cpu_count h)),
             (''frequency'', PStr ''Unknown'')]"

text \<open>\<^verbatim>\<open>psutil.cpu_count(logical=False) or logical_cores\<close>: \<open>None\<close> and \<open>0\<close> are falsy.\<close>

definition physical_or_logical :: "host \<Rightarrow> pyval" where
  "physical_or_logical h =
     (case psutil_cpu_count_physical h of
        None \<Rightarrow> opt_int (psutil_cpu_count h)
      | Some k \<Rightarrow> if k = 0 then opt_int (psutil_cpu_count h) else PInt (int k))"

definition get_cpu_info :: "host \<Rightarrow> pydict" where
  "get_cpu_info h =
     (if HAS_PSUTIL h then
        (case psutil_cpu_percent h of
           Inl e \<Rightarrow> cpu_fallback h
         | Inr cpu_percent \<Rightarrow>
            (let info = map_of [(''usage'', PFloat cpu_percent),
                                (''logical_cores'', opt_int (psutil_cpu_count h)),
                                (''physical_cores'', physical_or_logical h),
                                (''frequency'', PStr (cpu_frequency h))]
             in case cpu_temperature h of
                  None \<Rightarrow> info
                | Some t \<Rightarrow> info(''temperature'' \<mapsto> PStr t)))
      else cpu_fallback h)"

definition memory_fallback :: pydict where
  "memory_fallback =
     map_of [(''total'', PStr ''Unknown''), (''available'', PStr ''Unknown''),
             (''used'', PStr ''Unknown''), (''percent'', PStr ''Unknown''),
             (''swap_total'', PStr ''Unknown''), (''swap_used'', PStr ''Unknown''),
             (''swap_percent'', PStr ''Unknown'')]"

definition get_memory_info :: "host \<Rightarrow> pydict" where
  "get_memory_info h =
     (if HAS_PSUTIL h then
        (case psutil_virtual_memory h of
           Inl e \<Rightarrow> memory_fallback
         | Inr memory \<Rightarrow>
            (case psutil_swap_memory h of
               Inl e \<Rightarrow> memory_fallback
             | Inr swap \<Rightarrow>
                 map_of [(''total'', PStr (format_bytes (vm_total memory))),
                         (''available'', PStr (format_bytes (vm_available memory))),
                         (''used'', PStr (format_bytes (vm_used memory))),
                         (''percent'', PFloat (vm_percent memory)),
                         (''swap_total'', PStr (format_bytes (sw_total swap))),
                         (''swap_used'', PStr (format_bytes (sw_used swap))),
                         (''swap_percent'', PFloat (sw_percent swap))]))
      else memory_fallback)"

text \<open>
  Lines 124 to 131 and 144 to 151: the dictionary of one volume.  \<^verbatim>\<open>used / total\<close>
  raises \<^verbatim>\<open>ZeroDivisionError\<close> for a volume of size zero, before anything is appended.
\<close>

definition disk_entry :: "string \<Rightarrow> string \<Rightarrow> disk_usage \<Rightarrow> exn + pydict" where
  "disk_entry dev mnt usage =
     (if du_total usage = 0 then Inl ZeroDivisionError
      else Inr (map_of
        [(''device'', PStr dev),
         (''mountpoint'', PStr mnt),
         (''total'', PStr (format_bytes (du_total usage))),
         (''used'', PStr (format_bytes (du_used usage))),
         (''free'', PStr (format_bytes (du_free usage))),
         (''percent'', PFloat (of_nat (du_used usage) / of_nat (du_total usage) * 100))]))"

text \<open>Lines 123 to 131: the body of the inner \<^verbatim>\<open>try\<close>, for one partition.\<close>

definition probe_partition :: "host \<Rightarrow> partition \<Rightarrow> exn + pydict" where
  "probe_partition h p =
     (case psutil_disk_usage h (mountpoint p) of
        Inl e \<Rightarrow> Inl e
      | Inr usage \<Rightarrow> disk_entry (device p) (mountpoint p) usage)"

text \<open>Lines 121 to 133: the loop; \<^verbatim>\<open>except: continue\<close> skips a partition that raised.\<close>

fun scan_partitions :: "host \<Rightarrow> partition list \<Rightarrow> pydict list \<Rightarrow> pydict list" where
  "scan_partitions h [] disk_info = disk_info"
| "scan_partitions h (p # ps) disk_info =
     (case probe_partition h p of
        Inl e \<Rightarrow> scan_partitions h ps disk_info
      | Inr entry \<Rightarrow> scan_partitions h ps (disk_info @ [entry]))"

text \<open>Lines 138 to 153: the fallback, tried when nothing was collected.\<close>

definition disk_fallback :: "host \<Rightarrow> pydict list" where
  "disk_fallback h =
     (case abspath_cwd h of
        Inl e \<Rightarrow> []
      | Inr current \<Rightarrow>
          if system h = ''Windows'' then
            (case shutil_disk_usage h current of
               Inl e \<Rightarrow> []
             | Inr usage \<Rightarrow>
                 (case disk_entry ''C:'' current usage of
                    Inl e \<Rightarrow> []
                  | Inr entry \<Rightarrow> [entry]))
          else [])"

definition get_disk_info :: "host \<Rightarrow> pydict list" where
  "get_disk_info h =
     (let disk_info =
        (if HAS_PSUTIL h then
           (case psutil_disk_partitions h of
              Inl e \<Rightarrow> []
            | Inr partitions \<Rightarrow> scan_partitions h partitions [])
         else [])
      in case disk_info of [] \<Rightarrow> disk_fallback h | entry # entries \<Rightarrow> disk_info)"

section \<open>Process collection and ranking\<close>

text \<open>\<^verbatim>\<open>ProcessInfo = namedtuple('ProcessInfo', ['name', 'cpu_percent', 'memory_mb', 'pid'])\<close>\<close>

record ProcessInfo =
  name :: string
  cpu_percent :: rat
  memory_mb :: rat
  pid :: int

text \<open>The exceptions the two inner \<^verbatim>\<open>except\<close> clauses catch (lines 170 and 202).\<close>

definition skipped :: "exn \<Rightarrow> bool" where
  "skipped e = (e = NoSuchProcess \<or> e = AccessDenied \<or> e = ZombieProcess)"

text \<open>Lines 166 to 171: the first pass; an exception that is not caught leaves the loop.\<close>

fun run_first_pass :: "exn option list \<Rightarrow> exn + unit" where
  "run_first_pass [] = Inr ()"
| "run_first_pass (r # rs) =
     (case r of
        None \<Rightarrow> run_first_pass rs
      | Some e \<Rightarrow> if skipped e then run_first_pass rs else Inl e)"

text \<open>Lines 181 to 183: \<^verbatim>\<open>if name.endswith('.exe'): name = name[:-4]\<close>.\<close>

definition strip_exe :: "string \<Rightarrow> string" where
  "strip_exe nm = (if endswith nm ''.exe'' then take (length nm - 4) nm else nm)"

definition denylist :: "string list" where
  "denylist = [''system'', ''system idle process'', ''system interrupts'']"

text \<open>
  Lines 179 to 200: the body of the second loop for one process.  \<open>Inr None\<close> is the
  \<^verbatim>\<open>continue\<close> of line 193.  A \<open>None\<close> name or memory_info raises
  \<^verbatim>\<open>AttributeError\<close>, a \<open>None\<close> operand of the division \<^verbatim>\<open>TypeError\<close>.  The name,
  the memory and the CPU percent are computed before the denylist is consulted.
\<close>

definition collect_process :: "nat option \<Rightarrow> process \<Rightarrow> exn + ProcessInfo option" where
  "collect_process cpu_count proc =
     (case oneshot_error proc of
        Some e \<Rightarrow> Inl e
      | None \<Rightarrow>
     (case info_name proc of
        None \<Rightarrow> Inl AttributeError
      | Some nm \<Rightarrow>
     (case info_rss proc of
        None \<Rightarrow> Inl AttributeError
      | Some rss \<Rightarrow>
     (case info_cpu_percent proc of
        None \<Rightarrow> Inl TypeError
      | Some raw \<Rightarrow>
     (case cpu_count of
        None \<Rightarrow> Inl TypeError
      | Some cores \<Rightarrow>
          if cores = 0 then Inl ZeroDivisionError
          else if lower (strip_exe nm) \<in> set denylist then Inr None
          else Inr (Some \<lparr>name = strip_exe nm,
                           cpu_percent = py_round1 (raw / of_nat cores),
                           memory_mb = py_round1 (of_nat rss / 1024 / 1024),
                           pid = info_pid proc\<rparr>))))))"

text \<open>Lines 177 to 203: the second loop.\<close>

fun run_second_pass :: "nat option \<Rightarrow> process list \<Rightarrow> ProcessInfo list \<Rightarrow> exn + ProcessInfo list" where
  "run_second_pass cpu_count [] processes = Inr processes"
| "run_second_pass cpu_count (proc # procs) processes =
     (case collect_process cpu_count proc of
        Inl e \<Rightarrow> if skipped e then run_second_pass cpu_count procs processes else Inl e
      | Inr None \<Rightarrow> run_second_pass cpu_count procs processes
      | Inr (Some info) \<Rightarrow> run_second_pass cpu_count procs (processes @ [info]))"

text \<open>Lines 165 to 203: both passes, with the exceptions that reach the outer handler.\<close>

definition collect_processes :: "host \<Rightarrow> exn + ProcessInfo list" where
  "collect_processes h =
     (case run_first_pass (first_pass h) of
        Inl e \<Rightarrow> Inl e
      | Inr u \<Rightarrow>
     (case first_pass_error h of
        Some e \<Rightarrow> Inl e
      | None \<Rightarrow>
     (case run_second_pass (psutil_cpu_count h) (second_pass h) [] of
        Inl e \<Rightarrow> Inl e
      | Inr processes \<Rightarrow>
     (case second_pass_error h of
        Some e \<Rightarrow> Inl e
      | None \<Rightarrow> Inr processes))))"

text \<open>
  \<^verbatim>\<open>processes.sort(key=lambda x: x.cpu_percent, reverse=True)\<close>: a stable sort; with
  \<^verbatim>\<open>reverse=True\<close> the list is reversed, sorted stably and reversed again, so entries
  with equal keys keep their order.
\<close>

definition sort_by_cpu :: "ProcessInfo list \<Rightarrow> ProcessInfo list" where
  "sort_by_cpu processes = rev (sort_key cpu_percent (rev processes))"

text \<open>Lines 158 to 211.  The result is \<open>Inr\<close> of the returned list; \<open>Inl\<close> would be an
  exception that reaches the caller.\<close>

definition get_top_processes :: "host \<Rightarrow> int \<Rightarrow> exn + ProcessInfo list" where
  "get_top_processes h limit =
     (if \<not> HAS_PSUTIL h then Inr []
      else
        (case collect_processes h of
           Inl e \<Rightarrow> Inr []
         | Inr processes \<Rightarrow> Inr (slice_to limit (sort_by_cpu processes))))"

text \<open>The denylist-filtered set of the specification: everything the collection gathered,
  before sorting and truncation.\<close>

definition filtered_set :: "host \<Rightarrow> ProcessInfo list" where
  "filtered_set h =
     (if HAS_PSUTIL h then
        (case collect_processes h of Inl e \<Rightarrow> [] | Inr processes \<Rightarrow> processes)
      else [])"

section \<open>Display and the capture\<close>

text \<open>
  The display functions print; the model returns what they read and interpolate, in the
  order of the f-strings, and the exception of a failing lookup.
\<close>

text \<open>Lines 246 to 251.\<close>

definition display_cpu_info :: "pydict \<Rightarrow> exn + pyval list" where
  "display_cpu_info cpu_info =
     (case getitem cpu_info ''usage'' of Inl e \<Rightarrow> Inl e | Inr usage \<Rightarrow>
     (case getitem cpu_info ''physical_cores'' of Inl e \<Rightarrow> Inl e | Inr physical \<Rightarrow>
     (case getitem cpu_info ''logical_cores'' of Inl e \<Rightarrow> Inl e | Inr logical \<Rightarrow>
     (case (case cpu_info ''temperature'' of None \<Rightarrow> Inr [] | Some t \<Rightarrow> Inr [t]) of
        Inl e \<Rightarrow> Inl e | Inr temperature \<Rightarrow>
     (case getitem cpu_info ''frequency'' of Inl e \<Rightarrow> Inl e | Inr frequency \<Rightarrow>
        Inr ([usage, physical, logical] @ temperature @ [frequency]))))))"

text \<open>Lines 255 to 259.\<close>

definition display_memory_info :: "pydict \<Rightarrow> exn + pyval list" where
  "display_memory_info memory_info =
     (case getitem memory_info ''used'' of Inl e \<Rightarrow> Inl e | Inr used \<Rightarrow>
     (case getitem memory_info ''total'' of Inl e \<Rightarrow> Inl e | Inr total' \<Rightarrow>
     (case getitem memory_info ''percent'' of Inl e \<Rightarrow> Inl e | Inr percent \<Rightarrow>
     (case getitem memory_info ''available'' of Inl e \<Rightarrow> Inl e | Inr available \<Rightarrow>
     (case getitem memory_info ''swap_total'' of Inl e \<Rightarrow> Inl e | Inr swap_total \<Rightarrow>
        if swap_total \<noteq> PStr ''0 B'' then
          (case getitem memory_info ''swap_used'' of Inl e \<Rightarrow> Inl e | Inr swap_used \<Rightarrow>
          (case getitem memory_info ''swap_percent'' of Inl e \<Rightarrow> Inl e | Inr swap_percent \<Rightarrow>
             Inr [used, total', percent, available, swap_used, swap_total, swap_percent]))
        else Inr [used, total', percent, available])))))"

text \<open>Lines 263 to 267.\<close>

definition display_disk :: "pydict \<Rightarrow> exn + pyval list" where
  "display_disk disk =
     (case getitem disk ''device'' of Inl e \<Rightarrow> Inl e | Inr dev \<Rightarrow>
     (case getitem disk ''mountpoint'' of Inl e \<Rightarrow> Inl e | Inr mnt \<Rightarrow>
     (case getitem disk ''used'' of Inl e \<Rightarrow> Inl e | Inr used \<Rightarrow>
     (case getitem disk ''total'' of Inl e \<Rightarrow> Inl e | Inr total' \<Rightarrow>
     (case getitem disk ''percent'' of Inl e \<Rightarrow> Inl e | Inr percent \<Rightarrow>
        Inr [dev, mnt, used, total', percent])))))"

fun display_disk_info :: "pydict list \<Rightarrow> exn + pyval list list" where
  "display_disk_info [] = Inr []"
| "display_disk_info (disk # disks) =
     (case display_disk disk of
        Inl e \<Rightarrow> Inl e
      | Inr row \<Rightarrow>
          (case display_disk_info disks of Inl e \<Rightarrow> Inl e | Inr rows \<Rightarrow> Inr (row # rows)))"

text \<open>
  Lines 271 to 295: the table shows the first ten entries of the sorted list, names longer
  than 22 characters cut to 19 and three dots; the totals are taken over the whole list
  that was passed in.  An empty list prints a notice and no totals.
\<close>

datatype process_display =
    NoActiveProcesses
  | ProcessTable "ProcessInfo list" rat rat

definition display_name :: "string \<Rightarrow> string" where
  "display_name nm = (if length nm \<le> 22 then nm else take 19 nm @ ''...'')"

definition display_processes :: "ProcessInfo list \<Rightarrow> process_display" where
  "display_processes processes0 =
     (let processes = sort_by_cpu processes0;
          top_processes = take 10 processes
      in case top_processes of
           [] \<Rightarrow> NoActiveProcesses
         | p # ps \<Rightarrow>
             ProcessTable (map (\<lambda>proc. proc\<lparr>name := display_name (name proc)\<rparr>) top_processes)
               (sum_list (map cpu_percent processes))
               (sum_list (map memory_mb processes)))"

text \<open>The totals line of the display, if one is printed.\<close>

definition totals :: "process_display \<Rightarrow> (rat \<times> rat) option" where
  "totals d = (case d of NoActiveProcesses \<Rightarrow> None | ProcessTable rows c m \<Rightarrow> Some (c, m))"

text \<open>Lines 299 to 316.  The header (lines 234 to 242) reads only the platform strings and
  is left out.\<close>

definition monitor_once :: "host \<Rightarrow> exn + (pyval list \<times> pyval list \<times> pyval list list \<times> process_display)" where
  "monitor_once h =
     (case display_cpu_info (get_cpu_info h) of Inl e \<Rightarrow> Inl e | Inr cpu \<Rightarrow>
     (case display_memory_info (get_memory_info h) of Inl e \<Rightarrow> Inl e | Inr memory \<Rightarrow>
     (case display_disk_info (get_disk_info h) of Inl e \<Rightarrow> Inl e | Inr disks \<Rightarrow>
     (case get_top_processes h 10 of Inl e \<Rightarrow> Inl e | Inr processes \<Rightarrow>
        Inr (cpu, memory, disks, display_processes processes)))))"

text \<open>The totals the capture reports for a given limit of the ranking.\<close>

definition reported_totals :: "host \<Rightarrow> int \<Rightarrow> (rat \<times> rat) option" where
  "reported_totals h limit =
     (case get_top_processes h limit of
        Inl e \<Rightarrow> None
      | Inr processes \<Rightarrow> totals (display_processes processes))"


section \<open>Example hosts\<close>

text \<open>
  An eight-core Linux host with psutil: three mounted volumes, the second of which denies
  access, and five processes in the second pass, two of them pseudo-processes of the
  denylist and two with equal CPU percent.
\<close>

definition example_usage :: "string \<Rightarrow> exn + disk_usage" where
  "example_usage mnt =
     (if mnt = ''/'' then Inr \<lparr>du_total = 1073741824, du_used = 536870912, du_free = 536870912\<rparr>
      else if mnt = ''/home'' then Inr \<lparr>du_total = 2048, du_used = 512, du_free = 1536\<rparr>
      else Inl PermissionError)"

definition example_processes :: "process list" where
  "example_processes =
     [\<lparr>info_pid = 4, info_name = Some ''System'', info_cpu_percent = Some 800,
       info_rss = Some 1048576, oneshot_error = None\<rparr>,
      \<lparr>info_pid = 0, info_name = Some ''System Idle Process'', info_cpu_percent = Some 700,
       info_rss = Some 1048576, oneshot_error = None\<rparr>,
      \<lparr>info_pid = 20, info_name = Some ''worker'', info_cpu_percent = Some 40,
       info_rss = Some 2097152, oneshot_error = None\<rparr>,
      \<lparr>info_pid = 10, info_name = Some ''worker'', info_cpu_percent = Some 40,
       info_rss = Some 3145728, oneshot_error = None\<rparr>,
      \<lparr>info_pid = 30, info_name = Some ''python.exe'', info_cpu_percent = Some 100,
       info_rss = Some 104857600, oneshot_error = None\<rparr>]"

definition linux_host :: host where
  "linux_host =
     \<lparr>HAS_PSUTIL = True,
      system = ''Linux'',
      os_cpu_count = Some 8,
      psutil_cpu_percent = Inr 25,
      psutil_cpu_count = Some 8,
      psutil_cpu_count_physical = Some 4,
      wmi_processor = Inl OSError,
      psutil_cpu_freq = Inr (Some 2400),
      psutil_sensors_temperatures = Inl AttributeError,
      psutil_virtual_memory =
        Inr \<lparr>vm_total = 1073741824, vm_available = 536870912, vm_used = 536870912,
             vm_percent = 50\<rparr>,
      psutil_swap_memory = Inr \<lparr>sw_total = 0, sw_used = 0, sw_percent = 0\<rparr>,
      psutil_disk_partitions =
        Inr [\<lparr>device = ''/dev/sda1'', mountpoint = ''/''\<rparr>,
             \<lparr>device = ''/dev/sdb1'', mountpoint = ''/mnt/secure''\<rparr>,
             \<lparr>device = ''/dev/sda2'', mountpoint = ''/home''\<rparr>],
      psutil_disk_usage = example_usage,
      abspath_cwd = Inr ''/home'',
      shutil_disk_usage = example_usage,
      first_pass = [None, None, Some AccessDenied, None, None],
      first_pass_error = None,
      second_pass = example_processes,
      second_pass_error = None\<rparr>"

text \<open>The same host without psutil, and a Windows host without psutil.\<close>

definition bare_linux_host :: host where
  "bare_linux_host = linux_host\<lparr>HAS_PSUTIL := False\<rparr>"

definition bare_windows_host :: host where
  "bare_windows_host =
     linux_host\<lparr>HAS_PSUTIL := False, system := ''Windows'', abspath_cwd := Inr ''/''\<rparr>"

text \<open>A host whose second pass meets a process that psutil could not read (its name is
  \<open>None\<close>).\<close>

definition denied_host :: host where
  "denied_host =
     linux_host\<lparr>second_pass :=
       example_processes @
       [\<lparr>info_pid = 40, info_name = None, info_cpu_percent = None, info_rss = None,
         oneshot_error = None\<rparr>]\<rparr>"


definition vanished_process :: process where
  "vanished_process =
     \<lparr>info_pid = 50, info_name = Some ''gone'', info_cpu_percent = Some 0,
      info_rss = Some 0, oneshot_error = Some NoSuchProcess\<rparr>"

text \<open>What the ranking returns on \<open>linux_host\<close>: ``python'' first, then the two workers in
  the order of the second pass (pid 20 before pid 10).\<close>

definition example_ranking :: "ProcessInfo list" where
  "example_ranking =
     [\<lparr>name = ''python'', cpu_percent = 25 / 2, memory_mb = 100, pid = 30\<rparr>,
      \<lparr>name = ''worker'', cpu_percent = 5, memory_mb = 2, pid = 20\<rparr>,
      \<lparr>name = ''worker'', cpu_percent = 5, memory_mb = 3, pid = 10\<rparr>]"

section \<open>The byte formatter: refinement and monotonicity\<close>








lemma digit_char_no_space:
  assumes "d < 10"
  shows "digit_char d \<noteq> CHR '' ''"
proof -
  from assms
  have "d = 0 \<or> d = 1 \<or> d = 2 \<or> d = 3 \<or> d = 4 \<or> d = 5 \<or> d = 6 \<or> d = 7 \<or> d = 8 \<or> d = 9"
    by arith
  then show ?thesis by (auto simp: digit_char_def)
qed

lemma digits_no_space: "CHR '' '' \<notin> set (digits n)"
proof (induction n rule: digits.induct)
  case (1 n)
  show ?case
  proof (cases "n < 10")
    case True
    then show ?thesis using digit_char_no_space[of n] by (subst digits.simps) auto
  next
    case False
    have "n mod 10 < 10" by simp
    with False "1.IH" show ?thesis using digit_char_no_space[of "n mod 10"]
      by (subst digits.simps) auto
  qed
qed

lemma fmt1_no_space: "CHR '' '' \<notin> set (fmt1 x)"
  by (simp add: fmt1_def Let_def digits_no_space)

lemma unit_of_fmt1: "unit_of (fmt1 x @ '' '' @ u) = u"
proof -
  have "dropWhile (\<lambda>c. c \<noteq> CHR '' '') (fmt1 x @ '' '' @ u) = '' '' @ u"
    using fmt1_no_space[of x] by (subst dropWhile_append2) auto
  then show ?thesis by (simp add: unit_of_def)
qed

lemma format_bytes_loop_shape:
  "format_bytes_loop units v =
     fmt1 (v / 1024 ^ loop_steps units v) @ '' '' @ (units @ [''PB'']) ! loop_steps units v"
  by (induction units v rule: format_bytes_loop.induct) (simp_all add: field_simps)

lemma loop_steps_le: "loop_steps units v \<le> length units"
  by (induction units v rule: loop_steps.induct) simp_all

lemma loop_steps_mono: "v \<le> w \<Longrightarrow> loop_steps units v \<le> loop_steps units w"
proof (induction units arbitrary: v w)
  case Nil
  then show ?case by simp
next
  case (Cons u units)
  have "v / 1024 \<le> w / 1024" using Cons.prems by (simp add: divide_right_mono)
  from Cons.IH[OF this] Cons.prems show ?case by auto
qed

lemma unit_rank_label:
  assumes "k \<le> 5"
  shows "unit_rank (unit_labels ! k) = k"
proof -
  from assms have "k = 0 \<or> k = 1 \<or> k = 2 \<or> k = 3 \<or> k = 4 \<or> k = 5" by arith
  then show ?thesis by (auto simp: unit_rank_def unit_labels_def)
qed

lemma format_bytes_unit:
  "unit_rank (unit_of (format_bytes n)) =
     loop_steps [''B'', ''KB'', ''MB'', ''GB'', ''TB''] (of_nat n)"
proof -
  let ?us = "[''B'', ''KB'', ''MB'', ''GB'', ''TB'']"
  have le: "loop_steps ?us (of_nat n) \<le> 5"
    using loop_steps_le[of ?us "of_nat n"] by simp
  have "?us @ [''PB''] = unit_labels" by (simp add: unit_labels_def)
  then have eq: "format_bytes n =
      fmt1 (of_nat n / 1024 ^ loop_steps ?us (of_nat n)) @ '' '' @
      unit_labels ! loop_steps ?us (of_nat n)"
    unfolding format_bytes_def by (subst format_bytes_loop_shape) simp
  show ?thesis by (simp only: eq unit_of_fmt1 unit_rank_label[OF le])
qed

text \<open>
  Claim C5.  The formatter is monotone in its unit: for byte counts \<open>a \<le> b\<close> the unit of
  the string for \<open>b\<close> is never earlier in the sequence B, KB, MB, GB, TB, PB than the unit
  of the string for \<open>a\<close>.
\<close>

theorem format_bytes_unit_monotone:
  assumes "a \<le> b"
  shows "unit_rank (unit_of (format_bytes a)) \<le> unit_rank (unit_of (format_bytes b))"
proof -
  have "(of_nat a :: rat) \<le> of_nat b" using assms by simp
  then show ?thesis by (simp only: format_bytes_unit loop_steps_mono)
qed

theorem format_bytes_unit_monotone_witness:
  "(1023 :: nat) \<le> 1024
   \<and> unit_of (format_bytes 1023) = ''B''
   \<and> unit_of (format_bytes 1024) = ''KB''
   \<and> unit_rank (unit_of (format_bytes 1023)) \<le> unit_rank (unit_of (format_bytes 1024))"
proof -
  have le: "(1023 :: nat) \<le> 1024" by simp
  have a: "format_bytes 1023 = fmt1 1023 @ '' '' @ ''B''"
    by (simp add: format_bytes_def)
  have b: "format_bytes 1024 = fmt1 1 @ '' '' @ ''KB''"
    by (simp add: format_bytes_def)
  have "unit_of (format_bytes 1023) = ''B''"
    by (simp only: a unit_of_fmt1)
  moreover have "unit_of (format_bytes 1024) = ''KB''"
    by (simp only: b unit_of_fmt1)
  ultimately show ?thesis
    using le format_bytes_unit_monotone[OF le] by simp
qed

section \<open>Rounding, collection and ranking: auxiliary facts\<close>



lemma collect_process_Some:
  assumes "collect_process c p = Inr (Some q)"
  shows "\<exists>nm rss raw cores. oneshot_error p = None \<and> info_name p = Some nm \<and> info_rss p = Some rss
     \<and> info_cpu_percent p = Some raw \<and> c = Some cores \<and> 0 < cores
     \<and> lower (strip_exe nm) \<notin> set denylist
     \<and> q = \<lparr>name = strip_exe nm, cpu_percent = py_round1 (raw / of_nat cores),
            memory_mb = py_round1 (of_nat rss / 1024 / 1024), pid = info_pid p\<rparr>"
  using assms by (auto simp: collect_process_def split: option.splits if_splits)

lemma run_second_pass_Inr:
  "run_second_pass c ps acc = Inr out \<Longrightarrow>
   \<exists>new. out = acc @ new \<and> (\<forall>q \<in> set new. \<exists>p \<in> set ps. collect_process c p = Inr (Some q))"
proof (induction ps arbitrary: acc)
  case Nil
  then show ?case by simp
next
  case (Cons p ps)
  show ?case
  proof (cases "collect_process c p")
    case (Inl e)
    with Cons.prems have "run_second_pass c ps acc = Inr out"
      by (simp split: if_splits)
    from Cons.IH[OF this] show ?thesis by auto
  next
    case (Inr r)
    show ?thesis
    proof (cases r)
      case None
      with Inr Cons.prems have "run_second_pass c ps acc = Inr out" by simp
      from Cons.IH[OF this] show ?thesis by auto
    next
      case (Some info)
      with Inr Cons.prems have "run_second_pass c ps (acc @ [info]) = Inr out" by simp
      from Cons.IH[OF this] obtain new where
        new: "out = (acc @ [info]) @ new" "\<forall>q \<in> set new. \<exists>p \<in> set ps. collect_process c p = Inr (Some q)"
        by blast
      then have "out = acc @ (info # new)" by simp
      moreover have "\<forall>q \<in> set (info # new). \<exists>p' \<in> set (p # ps). collect_process c p' = Inr (Some q)"
        using new(2) Inr Some by auto
      ultimately show ?thesis by blast
    qed
  qed
qed

lemma run_second_pass_uncaught:
  "p \<in> set ps \<Longrightarrow> collect_process c p = Inl e \<Longrightarrow> \<not> skipped e \<Longrightarrow>
   \<exists>e'. run_second_pass c ps acc = Inl e'"
proof (induction ps arbitrary: acc)
  case Nil
  then show ?case by simp
next
  case (Cons a ps)
  show ?case
  proof (cases "a = p")
    case True
    with Cons.prems show ?thesis by simp
  next
    case False
    with Cons.prems have "p \<in> set ps" by simp
    from Cons.IH[OF this Cons.prems(2,3)]
    have ih: "\<And>acc'. \<exists>e'. run_second_pass c ps acc' = Inl e'" by blast
    show ?thesis
    proof (cases "collect_process c a")
      case (Inl x)
      then show ?thesis using ih[of acc] by simp
    next
      case (Inr r)
      then show ?thesis using ih[of acc] ih[of "acc @ [the r]"] by (cases r) simp_all
    qed
  qed
qed

lemma filtered_set_source:
  assumes "q \<in> set (filtered_set h)"
  shows "\<exists>p \<in> set (second_pass h). collect_process (psutil_cpu_count h) p = Inr (Some q)"
proof -
  from assms have has: "HAS_PSUTIL h" by (cases "HAS_PSUTIL h") (simp_all add: filtered_set_def)
  from assms has obtain ps where ps: "collect_processes h = Inr ps" "q \<in> set ps"
    by (cases "collect_processes h") (simp_all add: filtered_set_def)
  have "run_second_pass (psutil_cpu_count h) (second_pass h) [] = Inr ps"
  proof (cases "run_second_pass (psutil_cpu_count h) (second_pass h) []")
    case (Inl e)
    then show ?thesis using ps(1)
      by (simp add: collect_processes_def split: sum.splits option.splits)
  next
    case (Inr out)
    then show ?thesis using ps(1)
      by (simp add: collect_processes_def split: sum.splits option.splits)
  qed
  from run_second_pass_Inr[OF this] ps(2) show ?thesis by auto
qed

lemma get_top_processes_eq:
  "get_top_processes h limit = Inr (slice_to limit (sort_by_cpu (filtered_set h)))"
  by (auto simp: get_top_processes_def filtered_set_def sort_by_cpu_def slice_to_def
      split: sum.splits)

lemma set_slice_to: "set (slice_to limit xs) \<subseteq> set xs"
  by (auto simp: slice_to_def dest: in_set_takeD)

lemma set_sort_by_cpu [simp]: "set (sort_by_cpu xs) = set xs"
  by (simp add: sort_by_cpu_def)

lemma mset_sort_by_cpu [simp]: "mset (sort_by_cpu xs) = mset xs"
  by (simp add: sort_by_cpu_def)

lemma sum_sort_by_cpu: "sum_list (map f (sort_by_cpu xs)) = sum_list (map (f :: ProcessInfo \<Rightarrow> rat) xs)"
proof -
  have "mset (map f (sort_by_cpu xs)) = mset (map f xs)" by simp
  then show ?thesis by (metis sum_mset_sum_list)
qed



lemma display_totals:
  "totals (display_processes ps) =
     (if ps = [] then None
      else Some (sum_list (map cpu_percent ps), sum_list (map memory_mb ps)))"
proof (cases ps)
  case Nil
  then show ?thesis by (simp add: display_processes_def totals_def sort_by_cpu_def)
next
  case (Cons a list)
  then have "sort_by_cpu ps \<noteq> []" by (metis set_sort_by_cpu set_empty list.distinct(1))
  then have "take 10 (sort_by_cpu ps) \<noteq> []" by (cases "sort_by_cpu ps") auto
  then show ?thesis using Cons
    by (auto simp: display_processes_def totals_def Let_def sum_sort_by_cpu split: list.splits)
qed






lemma slice_to_all: "int (length xs) \<le> limit \<Longrightarrow> slice_to limit xs = xs"
  by (simp add: slice_to_def)

lemma round_half_even_of_int: "round_half_even (of_int k) = k"
  by (simp add: round_half_even_def)

lemma round_half_even_numeral: "round_half_even (numeral k) = numeral k"
  using round_half_even_of_int[of "numeral k"] by simp

lemma example_collected:
  "collect_processes linux_host =
     Inr [\<lparr>name = ''worker'', cpu_percent = 5, memory_mb = 2, pid = 20\<rparr>,
          \<lparr>name = ''worker'', cpu_percent = 5, memory_mb = 3, pid = 10\<rparr>,
          \<lparr>name = ''python'', cpu_percent = 25 / 2, memory_mb = 100, pid = 30\<rparr>]"
  by (simp add: collect_processes_def linux_host_def example_processes_def skipped_def
      collect_process_def strip_exe_def endswith_def lower_def lower_char_def denylist_def
      py_round1_def round_half_even_numeral)

lemma example_filtered_set:
  "filtered_set linux_host =
     [\<lparr>name = ''worker'', cpu_percent = 5, memory_mb = 2, pid = 20\<rparr>,
      \<lparr>name = ''worker'', cpu_percent = 5, memory_mb = 3, pid = 10\<rparr>,
      \<lparr>name = ''python'', cpu_percent = 25 / 2, memory_mb = 100, pid = 30\<rparr>]"
  by (simp add: filtered_set_def example_collected) (simp add: linux_host_def)

lemma example_top10: "get_top_processes linux_host 10 = Inr example_ranking"
  by (simp add: get_top_processes_eq example_filtered_set sort_by_cpu_def slice_to_def
      example_ranking_def)

lemma example_top1: "get_top_processes linux_host 1 = Inr [hd example_ranking]"
  by (simp add: get_top_processes_eq example_filtered_set sort_by_cpu_def slice_to_def
      example_ranking_def)

text \<open>
  Claim C1 (as amended).  The totals reported with the ranking are the sums of cpu_percent
  and memory_mb over the list that \<open>get_top_processes\<close> returned, which is the filtered set
  sorted and already cut to \<open>limit\<close> entries; no totals line is printed for an empty list.
  They equal the sums over the whole filtered set when \<open>limit\<close> is at least its size.
\<close>

theorem totals_cover_returned_list:
  "get_top_processes h limit = Inr (slice_to limit (sort_by_cpu (filtered_set h)))
   \<and> reported_totals h limit =
       (if slice_to limit (sort_by_cpu (filtered_set h)) = [] then None
        else Some (sum_list (map cpu_percent (slice_to limit (sort_by_cpu (filtered_set h)))),
                   sum_list (map memory_mb (slice_to limit (sort_by_cpu (filtered_set h))))))
   \<and> (int (length (filtered_set h)) \<le> limit \<and> filtered_set h \<noteq> [] \<longrightarrow>
        reported_totals h limit =
          Some (sum_list (map cpu_percent (filtered_set h)),
                sum_list (map memory_mb (filtered_set h))))"
proof -
  have a: "get_top_processes h limit = Inr (slice_to limit (sort_by_cpu (filtered_set h)))"
    by (rule get_top_processes_eq)
  have b: "reported_totals h limit =
       (if slice_to limit (sort_by_cpu (filtered_set h)) = [] then None
        else Some (sum_list (map cpu_percent (slice_to limit (sort_by_cpu (filtered_set h)))),
                   sum_list (map memory_mb (slice_to limit (sort_by_cpu (filtered_set h))))))"
    by (simp only: reported_totals_def a sum.case display_totals)
  have c: "reported_totals h limit =
          Some (sum_list (map cpu_percent (filtered_set h)),
                sum_list (map memory_mb (filtered_set h)))"
    if "int (length (filtered_set h)) \<le> limit" "filtered_set h \<noteq> []"
  proof -
    have "int (length (sort_by_cpu (filtered_set h))) \<le> limit"
      using that(1) by (simp add: sort_by_cpu_def)
    then have s: "slice_to limit (sort_by_cpu (filtered_set h)) = sort_by_cpu (filtered_set h)"
      by (rule slice_to_all)
    have ne: "sort_by_cpu (filtered_set h) \<noteq> []"
      using that(2) by (metis set_sort_by_cpu set_empty)
    show ?thesis by (simp add: b s ne sum_sort_by_cpu)
  qed
  from a b c show ?thesis by blast
qed

theorem totals_cover_returned_list_witness:
  "int (length (filtered_set linux_host)) \<le> 10 \<and> filtered_set linux_host \<noteq> []
   \<and> get_top_processes linux_host 10 = Inr example_ranking
   \<and> reported_totals linux_host 10 = Some (45 / 2, 105)"
proof -
  have h: "int (length (filtered_set linux_host)) \<le> 10 \<and> filtered_set linux_host \<noteq> []"
    by (simp add: example_filtered_set)
  then have "reported_totals linux_host 10 =
      Some (sum_list (map cpu_percent (filtered_set linux_host)),
            sum_list (map memory_mb (filtered_set linux_host)))"
    using totals_cover_returned_list[of linux_host 10] by blast
  then have "reported_totals linux_host 10 = Some (45 / 2, 105)"
    by (simp add: example_filtered_set)
  with h show ?thesis by (simp add: example_top10)
qed

text \<open>
  Claim C1 as stated fails: on \<open>linux_host\<close> the filtered set sums to 22.5 percent and
  105 MB, but with limit 1 the reported totals are those of the single returned entry, and
  they differ from the totals reported with limit 10.
\<close>

theorem totals_depend_on_limit:
  "reported_totals linux_host 1 = Some (25 / 2, 100)
   \<and> sum_list (map cpu_percent (filtered_set linux_host)) = 45 / 2
   \<and> sum_list (map memory_mb (filtered_set linux_host)) = 105
   \<and> reported_totals linux_host 1 \<noteq> reported_totals linux_host 10"
proof -
  have one: "reported_totals linux_host 1 = Some (25 / 2, 100)"
    by (simp add: reported_totals_def example_top1 display_totals example_ranking_def)
  have ten: "reported_totals linux_host 10 = Some (45 / 2, 105)"
    by (simp add: reported_totals_def example_top10 display_totals example_ranking_def)
  show ?thesis by (simp add: one ten example_filtered_set)
qed






text \<open>
  Claim C6.  No entry of the ranking has a name whose lower-case form is on the denylist;
  every entry stems from a process of the second pass whose name, with a trailing
  \<^verbatim>\<open>.exe\<close> removed, is its name; a process whose normalized name matches the denylist
  case-insensitively never yields an entry; and the reported totals are sums over the
  entries of the ranking only.
\<close>

theorem denylisted_never_ranked:
  assumes "get_top_processes h limit = Inr ranked"
  shows "(\<forall>q \<in> set ranked. lower (name q) \<notin> set denylist)
     \<and> (\<forall>q \<in> set ranked. \<exists>p \<in> set (second_pass h). \<exists>nm.
           info_name p = Some nm \<and> name q = strip_exe nm \<and> pid q = info_pid p)
     \<and> (\<forall>p nm q. info_name p = Some nm \<and> lower (strip_exe nm) \<in> set denylist
           \<longrightarrow> collect_process (psutil_cpu_count h) p \<noteq> Inr (Some q))
     \<and> reported_totals h limit =
         (if ranked = [] then None
          else Some (sum_list (map cpu_percent ranked), sum_list (map memory_mb ranked)))"
proof -
  have ranked: "ranked = slice_to limit (sort_by_cpu (filtered_set h))"
    using assms by (simp add: get_top_processes_eq)
  have sub: "set ranked \<subseteq> set (filtered_set h)"
    unfolding ranked using set_slice_to[of limit "sort_by_cpu (filtered_set h)"] by simp
  have src: "\<exists>p \<in> set (second_pass h). collect_process (psutil_cpu_count h) p = Inr (Some q)"
    if "q \<in> set ranked" for q
    using that sub filtered_set_source by blast
  have a: "\<forall>q \<in> set ranked. lower (name q) \<notin> set denylist"
  proof
    fix q assume "q \<in> set ranked"
    from src[OF this] obtain p where "collect_process (psutil_cpu_count h) p = Inr (Some q)"
      by blast
    from collect_process_Some[OF this] show "lower (name q) \<notin> set denylist" by auto
  qed
  have b: "\<forall>q \<in> set ranked. \<exists>p \<in> set (second_pass h). \<exists>nm.
           info_name p = Some nm \<and> name q = strip_exe nm \<and> pid q = info_pid p"
  proof
    fix q assume "q \<in> set ranked"
    from src[OF this] obtain p where p: "p \<in> set (second_pass h)"
      "collect_process (psutil_cpu_count h) p = Inr (Some q)" by blast
    from collect_process_Some[OF p(2)] obtain nm where
      "info_name p = Some nm" "name q = strip_exe nm" "pid q = info_pid p"
      by auto
    with p(1)
    show "\<exists>p \<in> set (second_pass h). \<exists>nm.
           info_name p = Some nm \<and> name q = strip_exe nm \<and> pid q = info_pid p"
      by blast
  qed
  have c: "\<forall>p nm q. info_name p = Some nm \<and> lower (strip_exe nm) \<in> set denylist
           \<longrightarrow> collect_process (psutil_cpu_count h) p \<noteq> Inr (Some q)"
    using collect_process_Some by fastforce
  have d: "reported_totals h limit =
         (if ranked = [] then None
          else Some (sum_list (map cpu_percent ranked), sum_list (map memory_mb ranked)))"
    by (simp only: reported_totals_def assms sum.case display_totals)
  from a b c d show ?thesis by blast
qed


theorem denylisted_never_ranked_witness:
  "get_top_processes linux_host 10 = Inr example_ranking
   \<and> info_name (hd example_processes) = Some ''System''
   \<and> lower (strip_exe ''System'') \<in> set denylist
   \<and> collect_process (psutil_cpu_count linux_host) (hd example_processes)
       \<noteq> Inr (Some (hd example_ranking))
   \<and> map name example_ranking = [''python'', ''worker'', ''worker'']
   \<and> lower (name (hd example_ranking)) \<notin> set denylist
   \<and> reported_totals linux_host 10 = Some (45 / 2, 105)"
proof -
  note t = denylisted_never_ranked[OF example_top10]
  have n: "info_name (hd example_processes) = Some ''System''"
    by (simp add: example_processes_def)
  have l: "lower (strip_exe ''System'') \<in> set denylist"
    by (simp add: strip_exe_def endswith_def lower_def lower_char_def denylist_def)
  from t n l have a: "collect_process (psutil_cpu_count linux_host) (hd example_processes)
       \<noteq> Inr (Some (hd example_ranking))"
    by blast
  have m: "hd example_ranking \<in> set example_ranking"
    by (simp add: example_ranking_def)
  with t have b: "lower (name (hd example_ranking)) \<notin> set denylist"
    by blast
  from t have "reported_totals linux_host 10 =
      (if example_ranking = [] then None
       else Some (sum_list (map cpu_percent example_ranking),
                  sum_list (map memory_mb example_ranking)))"
    by blast
  then have c: "reported_totals linux_host 10 = Some (45 / 2, 105)"
    by (simp add: example_ranking_def)
  have d: "map name example_ranking = [''python'', ''worker'', ''worker'']"
    by (simp add: example_ranking_def)
  from example_top10 n l a b c d show ?thesis by blast
qed


lemma collect_processes_uncaught:
  assumes "p \<in> set (second_pass h)"
    and "collect_process (psutil_cpu_count h) p = Inl e" and "\<not> skipped e"
  shows "\<exists>e'. collect_processes h = Inl e'"
proof -
  from run_second_pass_uncaught[OF assms]
  obtain e' where "run_second_pass (psutil_cpu_count h) (second_pass h) [] = Inl e'" by blast
  then show ?thesis
    by (simp add: collect_processes_def split: sum.splits option.splits)
qed

text \<open>
  Claim C10.  \<open>get_top_processes\<close> always returns a list and never an exception: the empty
  list without psutil, the empty list when the collection raises (in particular when a
  process of the second pass raises something the inner handler does not catch, such as
  the \<^verbatim>\<open>AttributeError\<close> for a process whose attributes psutil could not read), and a
  process that raises NoSuchProcess, AccessDenied or ZombieProcess is skipped.
\<close>

theorem get_top_processes_never_raises:
  "(\<exists>ranked. get_top_processes h limit = Inr ranked)
   \<and> (\<not> HAS_PSUTIL h \<longrightarrow> get_top_processes h limit = Inr [])
   \<and> (collect_processes h = Inl e \<longrightarrow> get_top_processes h limit = Inr [])
   \<and> (p \<in> set (second_pass h) \<and> collect_process (psutil_cpu_count h) p = Inl e' \<and> \<not> skipped e'
        \<longrightarrow> get_top_processes h limit = Inr [])
   \<and> (collect_process cpu_count p' = Inl e'' \<and> skipped e'' \<longrightarrow>
        run_second_pass cpu_count (p' # procs) processes = run_second_pass cpu_count procs processes)"
proof -
  have a: "\<exists>ranked. get_top_processes h limit = Inr ranked"
    by (simp add: get_top_processes_eq)
  have b: "get_top_processes h limit = Inr []" if "\<not> HAS_PSUTIL h"
    using that by (simp add: get_top_processes_def)
  have c: "get_top_processes h limit = Inr []" if "collect_processes h = Inl x" for x
    using that by (simp add: get_top_processes_def)
  have d: "get_top_processes h limit = Inr []"
    if "p \<in> set (second_pass h)" "collect_process (psutil_cpu_count h) p = Inl e'" "\<not> skipped e'"
    using collect_processes_uncaught[OF that] c by blast
  have f: "run_second_pass cpu_count (p' # procs) processes = run_second_pass cpu_count procs processes"
    if "collect_process cpu_count p' = Inl e''" "skipped e''"
    using that by simp
  from a b c d f show ?thesis by blast
qed

theorem get_top_processes_never_raises_witness:
  "\<not> HAS_PSUTIL bare_linux_host
   \<and> get_top_processes bare_linux_host 10 = Inr []
   \<and> last (second_pass denied_host) \<in> set (second_pass denied_host)
   \<and> collect_process (psutil_cpu_count denied_host) (last (second_pass denied_host)) = Inl AttributeError
   \<and> \<not> skipped AttributeError
   \<and> collect_processes denied_host = Inl AttributeError
   \<and> get_top_processes denied_host 10 = Inr []
   \<and> collect_process (Some 8) vanished_process = Inl NoSuchProcess
   \<and> skipped NoSuchProcess
   \<and> run_second_pass (Some 8) (vanished_process # example_processes) []
       = run_second_pass (Some 8) example_processes []"
proof -
  have a: "\<not> HAS_PSUTIL bare_linux_host"
    by (simp add: bare_linux_host_def)
  have m: "last (second_pass denied_host) \<in> set (second_pass denied_host)"
    by (simp add: denied_host_def)
  have c: "collect_process (psutil_cpu_count denied_host) (last (second_pass denied_host))
      = Inl AttributeError"
    by (simp add: denied_host_def collect_process_def)
  have s: "\<not> skipped AttributeError" by (simp add: skipped_def)
  have cp: "collect_processes denied_host = Inl AttributeError"
    by (simp add: collect_processes_def denied_host_def linux_host_def example_processes_def
        skipped_def collect_process_def strip_exe_def endswith_def lower_def lower_char_def
        denylist_def)
  have v: "collect_process (Some 8) vanished_process = Inl NoSuchProcess"
    by (simp add: collect_process_def vanished_process_def)
  have sv: "skipped NoSuchProcess" by (simp add: skipped_def)
  note t1 = get_top_processes_never_raises[of bare_linux_host 10]
  note t2 = get_top_processes_never_raises[of denied_host 10 AttributeError
      "last (second_pass denied_host)" AttributeError]
  note t3 = get_top_processes_never_raises[of linux_host 10 _ _ _ "Some 8" vanished_process
      NoSuchProcess example_processes "[]"]
  from a t1 have b: "get_top_processes bare_linux_host 10 = Inr []" by blast
  from m c s t2 have d: "get_top_processes denied_host 10 = Inr []" by blast
  from v sv t3 have e: "run_second_pass (Some 8) (vanished_process # example_processes) []
       = run_second_pass (Some 8) example_processes []"
    by blast
  from a b m c s cp d v sv e show ?thesis by blast
qed

section \<open>Disk probing and the fallback paths\<close>

lemma scan_partitions_concat:
  "scan_partitions h ps disk_info =
     disk_info @ concat (map (\<lambda>p. case probe_partition h p of Inl e \<Rightarrow> [] | Inr d \<Rightarrow> [d]) ps)"
  by (induction ps arbitrary: disk_info) (simp_all split: sum.splits)

lemma get_disk_info_psutil:
  assumes "HAS_PSUTIL h" and "psutil_disk_partitions h = Inr ps"
  shows "get_disk_info h =
     (case concat (map (\<lambda>p. case probe_partition h p of Inl e \<Rightarrow> [] | Inr d \<Rightarrow> [d]) ps) of
        [] \<Rightarrow> disk_fallback h
      | d # ds \<Rightarrow> d # ds)"
proof -
  define found where
    "found = concat (map (\<lambda>p. case probe_partition h p of Inl e \<Rightarrow> [] | Inr d \<Rightarrow> [d]) ps)"
  have "scan_partitions h ps [] = found"
    by (simp add: scan_partitions_concat found_def)
  then have "get_disk_info h = (case found of [] \<Rightarrow> disk_fallback h | entry # entries \<Rightarrow> found)"
    using assms by (simp add: get_disk_info_def Let_def)
  also have "\<dots> = (case found of [] \<Rightarrow> disk_fallback h | d # ds \<Rightarrow> d # ds)"
    by (cases found) simp_all
  finally show ?thesis unfolding found_def .
qed

lemma length_scanned:
  "length (concat (map (\<lambda>p. case probe_partition h p of Inl e \<Rightarrow> [] | Inr d \<Rightarrow> [d]) ps))
     = length (filter (\<lambda>p. \<not> isl (probe_partition h p)) ps)"
  by (induction ps) (simp_all split: sum.splits)

text \<open>
  Claim C8.  With psutil present and the partition list obtained, the result of
  \<open>get_disk_info\<close> holds one entry for every partition whose probe completes, in order,
  and nothing for a partition whose probe raises: each partition contributes on its own.
  A partition whose usage query fails has a failing probe.  With three partitions of which
  exactly one fails, the result has exactly two entries, those of the other two.  (A probe
  also fails, with \<^verbatim>\<open>ZeroDivisionError\<close>, for a volume of total size zero; only when
  no partition yields an entry is the fallback consulted.)
\<close>

theorem disk_scan_isolates_faults:
  assumes "HAS_PSUTIL h" and "psutil_disk_partitions h = Inr ps"
  shows "get_disk_info h =
       (case concat (map (\<lambda>p. case probe_partition h p of Inl e \<Rightarrow> [] | Inr d \<Rightarrow> [d]) ps) of
          [] \<Rightarrow> disk_fallback h
        | d # ds \<Rightarrow> d # ds)
     \<and> (psutil_disk_usage h (mountpoint p) = Inl e \<longrightarrow> probe_partition h p = Inl e)
     \<and> (length ps = 3 \<and> length (filter (\<lambda>p. isl (probe_partition h p)) ps) = 1 \<longrightarrow>
          length (get_disk_info h) = 2
          \<and> get_disk_info h =
              concat (map (\<lambda>p. case probe_partition h p of Inl e \<Rightarrow> [] | Inr d \<Rightarrow> [d]) ps))"
proof -
  define found where
    "found = concat (map (\<lambda>p. case probe_partition h p of Inl e \<Rightarrow> [] | Inr d \<Rightarrow> [d]) ps)"
  have g: "get_disk_info h = (case found of [] \<Rightarrow> disk_fallback h | d # ds \<Rightarrow> d # ds)"
    unfolding found_def by (rule get_disk_info_psutil[OF assms])
  have u: "probe_partition h p = Inl e" if "psutil_disk_usage h (mountpoint p) = Inl e"
    using that by (simp add: probe_partition_def)
  have x: "length (get_disk_info h) = 2 \<and> get_disk_info h = found"
    if "length ps = 3" "length (filter (\<lambda>p. isl (probe_partition h p)) ps) = 1"
  proof -
    have "length (filter (\<lambda>p. isl (probe_partition h p)) ps)
        + length (filter (\<lambda>p. \<not> isl (probe_partition h p)) ps) = length ps"
      by (rule sum_length_filter_compl)
    then have "length found = 2"
      using that by (simp add: found_def length_scanned)
    then show ?thesis by (cases found) (simp_all add: g)
  qed
  from g u x show ?thesis unfolding found_def by blast
qed

theorem disk_scan_isolates_faults_witness:
  "HAS_PSUTIL linux_host
   \<and> map mountpoint (projr (psutil_disk_partitions linux_host)) = [''/'', ''/mnt/secure'', ''/home'']
   \<and> psutil_disk_usage linux_host ''/mnt/secure'' = Inl PermissionError
   \<and> length (get_disk_info linux_host) = 2
   \<and> map (\<lambda>d. d ''mountpoint'') (get_disk_info linux_host)
       = [Some (PStr ''/''), Some (PStr ''/home'')]"
proof -
  let ?a = "\<lparr>device = ''/dev/sda1'', mountpoint = ''/''\<rparr>"
  let ?b = "\<lparr>device = ''/dev/sdb1'', mountpoint = ''/mnt/secure''\<rparr>"
  let ?c = "\<lparr>device = ''/dev/sda2'', mountpoint = ''/home''\<rparr>"
  have has: "HAS_PSUTIL linux_host" by (simp add: linux_host_def)
  have ps: "psutil_disk_partitions linux_host = Inr [?a, ?b, ?c]" by (simp add: linux_host_def)
  have ub: "psutil_disk_usage linux_host (mountpoint ?b) = Inl PermissionError"
    by (simp add: linux_host_def example_usage_def)
  obtain da where da: "probe_partition linux_host ?a = Inr da" "da ''mountpoint'' = Some (PStr ''/'')"
    by (simp add: probe_partition_def disk_entry_def linux_host_def example_usage_def)
  obtain dc where dc: "probe_partition linux_host ?c = Inr dc" "dc ''mountpoint'' = Some (PStr ''/home'')"
    by (simp add: probe_partition_def disk_entry_def linux_host_def example_usage_def)
  note t = disk_scan_isolates_faults[OF has ps, of ?b PermissionError]
  from t ub have pb: "probe_partition linux_host ?b = Inl PermissionError"
    by blast
  have one: "length [?a, ?b, ?c] = 3
      \<and> length (filter (\<lambda>p. isl (probe_partition linux_host p)) [?a, ?b, ?c]) = 1"
    by (simp add: da(1) pb dc(1))
  with t have "length (get_disk_info linux_host) = 2
      \<and> get_disk_info linux_host =
          concat (map (\<lambda>p. case probe_partition linux_host p of Inl e \<Rightarrow> [] | Inr d \<Rightarrow> [d])
            [?a, ?b, ?c])"
    by blast
  then have "length (get_disk_info linux_host) = 2" "get_disk_info linux_host = [da, dc]"
    by (simp_all add: da(1) pb dc(1))
  then show ?thesis using has ps ub da(2) dc(2) by simp
qed

lemma get_cpu_info_fallback:
  "\<not> HAS_PSUTIL h \<or> psutil_cpu_percent h = Inl e \<Longrightarrow> get_cpu_info h = cpu_fallback h"
  by (auto simp: get_cpu_info_def)

text \<open>
  Claim C9 (as amended).  Without psutil the CPU probe returns the fallback dictionary,
  which carries the core count of \<^verbatim>\<open>os.cpu_count()\<close> under the key \<open>cores\<close>; the disk
  probe returns one entry for the volume of the current directory, with its total, used
  and free space, on Windows only (when the query succeeds on a volume of non-zero size),
  and the empty list on every other system.
\<close>

theorem fallback_without_psutil:
  assumes "\<not> HAS_PSUTIL h"
  shows "get_cpu_info h = cpu_fallback h
     \<and> get_cpu_info h ''cores'' = Some (opt_int (os_cpu_count h))
     \<and> (system h \<noteq> ''Windows'' \<longrightarrow> get_disk_info h = [])
     \<and> (system h = ''Windows'' \<and> abspath_cwd h = Inr cur \<and> shutil_disk_usage h cur = Inr u
          \<and> du_total u \<noteq> 0 \<longrightarrow>
         (\<exists>d. get_disk_info h = [d]
            \<and> d ''mountpoint'' = Some (PStr cur)
            \<and> d ''total'' = Some (PStr (format_bytes (du_total u)))
            \<and> d ''used'' = Some (PStr (format_bytes (du_used u)))
            \<and> d ''free'' = Some (PStr (format_bytes (du_free u)))))"
proof -
  have a: "get_cpu_info h = cpu_fallback h"
    using assms by (simp add: get_cpu_info_def)
  have b: "get_cpu_info h ''cores'' = Some (opt_int (os_cpu_count h))"
    by (simp add: a cpu_fallback_def)
  have g: "get_disk_info h = disk_fallback h"
    using assms by (simp add: get_disk_info_def Let_def)
  have c: "get_disk_info h = []" if "system h \<noteq> ''Windows''"
    using that by (simp add: g disk_fallback_def split: sum.splits)
  have d: "\<exists>d. get_disk_info h = [d]
            \<and> d ''mountpoint'' = Some (PStr cur)
            \<and> d ''total'' = Some (PStr (format_bytes (du_total u)))
            \<and> d ''used'' = Some (PStr (format_bytes (du_used u)))
            \<and> d ''free'' = Some (PStr (format_bytes (du_free u)))"
    if "system h = ''Windows''" "abspath_cwd h = Inr cur" "shutil_disk_usage h cur = Inr u"
       "du_total u \<noteq> 0"
    using that by (simp add: g disk_fallback_def disk_entry_def)
  from a b c d show ?thesis by blast
qed

theorem fallback_without_psutil_witness:
  "\<not> HAS_PSUTIL bare_windows_host
   \<and> system bare_windows_host = ''Windows''
   \<and> get_cpu_info bare_windows_host ''cores'' = Some (PInt 8)
   \<and> (\<exists>d. get_disk_info bare_windows_host = [d]
            \<and> d ''mountpoint'' = Some (PStr ''/'')
            \<and> d ''total'' = Some (PStr (format_bytes 1073741824))
            \<and> d ''used'' = Some (PStr (format_bytes 536870912))
            \<and> d ''free'' = Some (PStr (format_bytes 536870912)))
   \<and> \<not> HAS_PSUTIL bare_linux_host
   \<and> system bare_linux_host \<noteq> ''Windows''
   \<and> get_disk_info bare_linux_host = []"
proof -
  let ?u = "\<lparr>du_total = 1073741824, du_used = 536870912, du_free = 536870912\<rparr>"
  have w: "\<not> HAS_PSUTIL bare_windows_host" "system bare_windows_host = ''Windows''"
    "abspath_cwd bare_windows_host = Inr ''/''"
    "shutil_disk_usage bare_windows_host ''/'' = Inr ?u" "du_total ?u \<noteq> 0"
    "os_cpu_count bare_windows_host = Some 8"
    by (simp_all add: bare_windows_host_def linux_host_def example_usage_def)
  have l: "\<not> HAS_PSUTIL bare_linux_host" "system bare_linux_host \<noteq> ''Windows''"
    by (simp_all add: bare_linux_host_def linux_host_def)
  note tw = fallback_without_psutil[OF w(1), of "''/''" ?u]
  note tl = fallback_without_psutil[OF l(1)]
  from tw have "get_cpu_info bare_windows_host ''cores''
      = Some (opt_int (os_cpu_count bare_windows_host))"
    by blast
  then have c: "get_cpu_info bare_windows_host ''cores'' = Some (PInt 8)"
    by (simp add: w(6) opt_int_def)
  have d: "\<exists>d. get_disk_info bare_windows_host = [d]
            \<and> d ''mountpoint'' = Some (PStr ''/'')
            \<and> d ''total'' = Some (PStr (format_bytes 1073741824))
            \<and> d ''used'' = Some (PStr (format_bytes 536870912))
            \<and> d ''free'' = Some (PStr (format_bytes 536870912))"
    using tw w by simp
  have e: "get_disk_info bare_linux_host = []"
    using tl l(2) by blast
  from w(1,2) c d l e show ?thesis by blast
qed

text \<open>
  Claim C9 as stated fails: on a Linux host without psutil, whose current directory is
  known, the disk probe returns nothing.
\<close>

theorem no_disk_fallback_off_windows:
  "\<not> HAS_PSUTIL bare_linux_host
   \<and> abspath_cwd bare_linux_host = Inr ''/home''
   \<and> get_disk_info bare_linux_host = []"
  by (simp add: bare_linux_host_def linux_host_def get_disk_info_def Let_def disk_fallback_def)

text \<open>
  Claim C3 fails on the code.  When psutil is absent (or its CPU query raises), the
  fallback dictionary of \<open>get_cpu_info\<close> has the key \<open>cores\<close> but neither
  \<open>physical_cores\<close> nor \<open>logical_cores\<close>, which \<open>display_cpu_info\<close> reads: the display
  and with it the capture raise \<^verbatim>\<open>KeyError\<close>.
\<close>

theorem fallback_cpu_display_raises:
  assumes "\<not> HAS_PSUTIL h \<or> psutil_cpu_percent h = Inl e"
  shows "get_cpu_info h ''physical_cores'' = None
     \<and> get_cpu_info h ''logical_cores'' = None
     \<and> display_cpu_info (get_cpu_info h) = Inl KeyError
     \<and> monitor_once h = Inl KeyError"
proof -
  have f: "get_cpu_info h = cpu_fallback h"
    using assms by (rule get_cpu_info_fallback)
  have a: "get_cpu_info h ''physical_cores'' = None" "get_cpu_info h ''logical_cores'' = None"
    by (simp_all add: f cpu_fallback_def)
  have b: "display_cpu_info (get_cpu_info h) = Inl KeyError"
    by (simp add: f display_cpu_info_def getitem_def cpu_fallback_def)
  have c: "monitor_once h = Inl KeyError"
    by (simp add: monitor_once_def b)
  from a b c show ?thesis by blast
qed

theorem fallback_cpu_display_raises_witness:
  "\<not> HAS_PSUTIL bare_linux_host \<and> monitor_once bare_linux_host = Inl KeyError"
proof -
  have "\<not> HAS_PSUTIL bare_linux_host" by (simp add: bare_linux_host_def)
  then show ?thesis using fallback_cpu_display_raises[of bare_linux_host] by blast
qed

end
